theory Spec2Isabelle
  imports Main "HOL-Library.AList"
begin

section \<open>Python text operations\<close>

text \<open>
  A Python \<open>str\<close> is a sequence of Unicode code points; it is modelled as a list of
  natural numbers, one per code point. \<open>str\<close> turns an ASCII literal into such a list.
\<close>

type_synonym ustr = "nat list"

definition str :: "string \<Rightarrow> ustr" where
  "str s = map of_char s"

text \<open>
  \<open>str.isspace\<close> on one code point: the white-space table of CPython
  (\<open>_PyUnicode_IsWhitespace\<close>).
\<close>

definition is_space :: "nat \<Rightarrow> bool" where
  "is_space c \<longleftrightarrow>
     (9 \<le> c \<and> c \<le> 13) \<or> (28 \<le> c \<and> c \<le> 32) \<or> c = 133 \<or> c = 160 \<or> c = 5760 \<or>
     (8192 \<le> c \<and> c \<le> 8202) \<or> c = 8232 \<or> c = 8233 \<or> c = 8239 \<or> c = 8287 \<or> c = 12288"

text \<open>\<open>s.strip()\<close>: white space removed from both ends.\<close>

definition strip :: "ustr \<Rightarrow> ustr" where
  "strip s = rev (dropWhile is_space (rev (dropWhile is_space s)))"

text \<open>
  \<open>s.replace(old, new)\<close> for a non-empty \<open>old\<close>: the occurrences are found from
  left to right and do not overlap. Every call of the program passes a literal for
  \<open>old\<close>, so the behaviour of Python on an empty \<open>old\<close> is not modelled (the text
  is returned unchanged).
\<close>

function py_replace :: "'a list \<Rightarrow> 'a list \<Rightarrow> 'a list \<Rightarrow> 'a list" where
  "py_replace old new [] = []"
| "py_replace old new (c # cs) =
     (if old \<noteq> [] \<and> take (length old) (c # cs) = old
      then new @ py_replace old new (drop (length old) (c # cs))
      else c # py_replace old new cs)"
  by pat_completeness auto
termination
  by (relation "measure (\<lambda>(old, new, s). length s)") (auto simp: neq_Nil_conv)

text \<open>
  \<open>s.split(sep)\<close> for a non-empty \<open>sep\<close>: the pieces between the occurrences of
  \<open>sep\<close>, found from left to right; the result always has at least one piece.
  Python raises \<open>ValueError\<close> on an empty separator; both calls of the program pass
  a literal.
\<close>

function py_split :: "'a list \<Rightarrow> 'a list \<Rightarrow> 'a list list" where
  "py_split sep [] = [[]]"
| "py_split sep (c # cs) =
     (if sep \<noteq> [] \<and> take (length sep) (c # cs) = sep
      then [] # py_split sep (drop (length sep) (c # cs))
      else (case py_split sep cs of
              [] \<Rightarrow> [[c]]
            | p # ps \<Rightarrow> (c # p) # ps))"
  by pat_completeness auto
termination
  by (relation "measure (\<lambda>(sep, s). length s)") (auto simp: neq_Nil_conv)

text \<open>\<open>sub in s\<close>: \<open>sub\<close> occurs in \<open>s\<close> as a contiguous run.\<close>

fun py_in :: "'a list \<Rightarrow> 'a list \<Rightarrow> bool" where
  "py_in sub [] \<longleftrightarrow> sub = []"
| "py_in sub (c # cs) \<longleftrightarrow> take (length sub) (c # cs) = sub \<or> py_in sub cs"

text \<open>\<open>sep.join(xs)\<close>.\<close>

fun py_join :: "'a list \<Rightarrow> 'a list list \<Rightarrow> 'a list" where
  "py_join sep [] = []"
| "py_join sep [x] = x"
| "py_join sep (x # y # ys) = x @ sep @ py_join sep (y # ys)"

text \<open>
  \<open>html.escape(s)\<close> of the standard library with its default \<open>quote=True\<close>: five
  replacements in this order, the ampersand first.
\<close>

definition html_escape :: "ustr \<Rightarrow> ustr" where
  "html_escape s =
     (let s = py_replace (str ''&'') (str ''&amp;'') s;
          s = py_replace (str ''<'') (str ''&lt;'') s;
          s = py_replace (str ''>'') (str ''&gt;'') s;
          s = py_replace [34] (str ''&quot;'') s;
          s = py_replace [39] (str ''&#x27;'') s
      in s)"

text \<open>What \<open>html.escape\<close> makes of one character.\<close>

definition escape_char :: "nat \<Rightarrow> ustr" where
  "escape_char c =
     (if c = 38 then str ''&amp;''
      else if c = 60 then str ''&lt;''
      else if c = 62 then str ''&gt;''
      else if c = 34 then str ''&quot;''
      else if c = 39 then str ''&#x27;''
      else [c])"

text \<open>
  \<open>s.capitalize()\<close>: the first character in upper case, the others in lower case.
  The case mapping is modelled on the ASCII letters; other code points are left as
  they are. The program capitalizes role names only.
\<close>

definition upper_char :: "nat \<Rightarrow> nat" where
  "upper_char c = (if 97 \<le> c \<and> c \<le> 122 then c - 32 else c)"

definition lower_char :: "nat \<Rightarrow> nat" where
  "lower_char c = (if 65 \<le> c \<and> c \<le> 90 then c + 32 else c)"

fun capitalize :: "ustr \<Rightarrow> ustr" where
  "capitalize [] = []"
| "capitalize (c # cs) = upper_char c # map lower_char cs"

text \<open>\<open>xs[start:]\<close>: a negative start counts from the end and is clamped at 0.\<close>

definition slice_from :: "'a list \<Rightarrow> int \<Rightarrow> 'a list" where
  "slice_from xs start =
     (if start < 0 then drop (nat (int (length xs) + start)) xs else drop (nat start) xs)"

text \<open>The decimal digits of a natural number (\<open>str(n)\<close> inside an f-string).\<close>

fun decimal :: "nat \<Rightarrow> ustr" where
  "decimal n = (if n < 10 then [48 + n] else decimal (n div 10) @ [48 + n mod 10])"

section \<open>Conversation memory\<close>

text \<open>
  One stored message: the dict \<open>{"role": ..., "text": ..., "timestamp": ...}\<close>. The
  time stamp is the reading of the UTC clock taken by \<open>add_message\<close>; the model keeps
  the reading (a number of microseconds) in place of its ISO-8601 rendering.
\<close>

record turn =
  role :: ustr
  "text" :: ustr
  timestamp :: nat

text \<open>
  \<open>ConversationMemory._store\<close>: a Python dict from session id to the list of the
  session's messages. A dict keeps its keys in insertion order, so it is modelled as an
  association list: a new key goes to the end, an update keeps the key's place. Each
  operation holds the lock for its whole access to the dict, so an operation is one
  step on the store.
\<close>

type_synonym store = "(ustr \<times> turn list) list"

definition sessions :: "store \<Rightarrow> ustr list" where
  "sessions st = map fst st"

definition get_all :: "store \<Rightarrow> ustr \<Rightarrow> turn list" where
  "get_all st sid = (case map_of st sid of None \<Rightarrow> [] | Some items \<Rightarrow> items)"

text \<open>The clock reading \<open>ts\<close> is \<open>datetime.now(timezone.utc)\<close> at the call.\<close>

definition add_message :: "store \<Rightarrow> ustr \<Rightarrow> ustr \<Rightarrow> ustr \<Rightarrow> nat \<Rightarrow> store" where
  "add_message st sid r t ts =
     (let item = \<lparr>role = r, text = t, timestamp = ts\<rparr>;
          st1 = (if sid \<notin> set (sessions st) then AList.update sid [] st else st)
      in AList.update sid (get_all st1 sid @ [item]) st1)"

definition get_recent :: "store \<Rightarrow> ustr \<Rightarrow> int \<Rightarrow> turn list" where
  "get_recent st sid limit =
     (let items = get_all st sid
      in if limit \<noteq> 0 \<and> int (length items) > limit then slice_from items (- limit)
         else items)"

definition clear :: "store \<Rightarrow> ustr \<Rightarrow> store" where
  "clear st sid = AList.delete sid st"

section \<open>Visual payload\<close>

record segment =
  seg_type :: ustr
  seg_text :: ustr

record visual_payload =
  html :: ustr
  markdown :: ustr
  segments :: "segment list"

text \<open>The text after the normalisation of the line ends.\<close>

definition normalize_newlines :: "ustr \<Rightarrow> ustr" where
  "normalize_newlines t = py_replace [13] [10] (py_replace [13, 10] [10] t)"

text \<open>The list \<open>paragraphs\<close> of \<open>build_visual_payload\<close>, from the normalised text.\<close>

definition paragraphs_of :: "ustr \<Rightarrow> ustr list" where
  "paragraphs_of t =
     (if py_in [10, 10] t
      then map strip (filter (\<lambda>p. strip p \<noteq> []) (py_split [10, 10] t))
      else map strip (filter (\<lambda>p. strip p \<noteq> []) (py_split [10] t)))"

text \<open>One round of the loop: the entry appended to \<open>html_parts\<close> and to \<open>segments\<close>.\<close>

definition html_part :: "ustr \<Rightarrow> ustr" where
  "html_part p =
     (let safe = html_escape p;
          safe = py_replace [10] (str ''<br>'') safe
      in str ''<p>'' @ safe @ str ''</p>'')"

definition paragraph_segment :: "ustr \<Rightarrow> segment" where
  "paragraph_segment p = \<lparr>seg_type = str ''paragraph'', seg_text = p\<rparr>"

definition build_visual_payload :: "ustr option \<Rightarrow> visual_payload" where
  "build_visual_payload t0 =
     (let t = (case t0 of None \<Rightarrow> [] | Some t \<Rightarrow> t);
          t = normalize_newlines t;
          paragraphs = paragraphs_of t;
          html_parts = map html_part paragraphs;
          segs = map paragraph_segment paragraphs
      in \<lparr>html = (if html_parts \<noteq> [] then py_join [10] html_parts else str ''<p>(empty)</p>''),
          markdown = (if paragraphs \<noteq> [] then py_join [10, 10] paragraphs else []),
          segments = segs\<rparr>)"

section \<open>Prompt builder\<close>

text \<open>Truth value of an \<open>Optional[str]\<close>: neither \<open>None\<close> nor empty.\<close>

definition truthy :: "ustr option \<Rightarrow> bool" where
  "truthy s \<longleftrightarrow> (case s of None \<Rightarrow> False | Some x \<Rightarrow> x \<noteq> [])"

definition system_header :: ustr where
  "system_header = str ''System instructions:''"

text \<open>The header of the history section; 8594 is the code point of its arrow.\<close>

definition history_header :: ustr where
  "history_header = str ''Conversation history (oldest '' @ [8594] @ str '' newest):''"

text \<open>The first block of \<open>build_prompt_with_context\<close>: what it appends to \<open>parts\<close>.\<close>

definition system_section :: "store \<Rightarrow> ustr option \<Rightarrow> ustr list" where
  "system_section st session =
     (case session of
        None \<Rightarrow> []
      | Some sid \<Rightarrow>
          if sid \<noteq> [] then
            (let all_items = get_all st sid;
                 system_msgs = filter (\<lambda>it. role it = str ''system'') all_items
             in if system_msgs \<noteq> []
                then [system_header] @ map (\<lambda>it. strip (text it)) system_msgs @ [[]]
                else [])
          else [])"

text \<open>The loop over \<open>recent\<close>: a system entry is skipped by \<open>continue\<close>.\<close>

fun history_lines :: "turn list \<Rightarrow> ustr list" where
  "history_lines [] = []"
| "history_lines (item # items) =
     (let r = capitalize (role item)
      in if role item = str ''system'' then history_lines items
         else (let t = strip (text item) in (r @ str '': '' @ t) # history_lines items))"

text \<open>The second block: what it appends to \<open>parts\<close>.\<close>

definition history_section :: "store \<Rightarrow> ustr option \<Rightarrow> int \<Rightarrow> ustr list" where
  "history_section st session memory_size =
     (case session of
        None \<Rightarrow> []
      | Some sid \<Rightarrow>
          if sid \<noteq> [] then
            (let recent = get_recent st sid memory_size
             in if recent \<noteq> [] then [history_header] @ history_lines recent @ [[]] else [])
          else [])"

definition prompt_parts :: "store \<Rightarrow> ustr option \<Rightarrow> ustr \<Rightarrow> int \<Rightarrow> ustr list" where
  "prompt_parts st session user_message memory_size =
     system_section st session @ history_section st session memory_size @
     [str ''User: '' @ strip user_message, str ''Assistant:'']"

definition build_prompt_with_context :: "store \<Rightarrow> ustr option \<Rightarrow> ustr \<Rightarrow> int \<Rightarrow> ustr" where
  "build_prompt_with_context st session user_message memory_size =
     py_join [10] (prompt_parts st session user_message memory_size)"

section \<open>Chat handler\<close>

text \<open>
  \<open>build_canvas_script\<close> substitutes its nine arguments into a fixed JavaScript
  template. The model keeps the nine values; the text of the template is not modelled.
\<close>

record canvas_script =
  canvas_w :: int
  canvas_h :: int
  bg :: ustr
  bubble :: ustr
  text_color :: ustr
  author_badge :: ustr
  font_family :: ustr
  line_height :: int
  typing_speed :: int

definition build_canvas_script ::
  "int \<Rightarrow> int \<Rightarrow> ustr \<Rightarrow> ustr \<Rightarrow> ustr \<Rightarrow> ustr \<Rightarrow> ustr \<Rightarrow> int \<Rightarrow> int \<Rightarrow> canvas_script" where
  "build_canvas_script w h b bb tc ab ff lh sp =
     \<lparr>canvas_w = w, canvas_h = h, bg = b, bubble = bb, text_color = tc, author_badge = ab,
      font_family = ff, line_height = lh, typing_speed = sp\<rparr>"

record chat_request =
  message :: ustr
  session_id :: "ustr option"
  memory_size :: "int option"
  system :: "ustr option"

text \<open>
  \<open>ChatResponse\<close>. Its optional fields are given a value by each of the three
  \<open>return\<close> statements of \<open>chat\<close>, so they are modelled without the option.
\<close>

record chat_response =
  response :: ustr
  model :: ustr
  resp_html :: ustr
  resp_markdown :: ustr
  resp_segments :: "segment list"
  resp_timestamp :: nat
  resp_session_id :: ustr
  resp_canvas_script :: canvas_script

text \<open>
  What the \<open>try\<close> block of \<open>chat\<close> gets from the Gemini client for a prompt:
  \<open>Raises e\<close> when \<open>generate_content\<close> or the extraction of the text raises an
  exception whose message is \<open>e\<close>, \<open>Replies t\<close> when the extraction ends with the
  text \<open>t\<close> (\<open>None\<close> when no text was found).
\<close>

datatype llm_outcome = Raises ustr | Replies "ustr option"

text \<open>
  What one request reads from outside the store: \<open>GEMINI_API_KEY\<close>, the client, and the
  clock (\<open>now_ms\<close> is the reading in milliseconds used for a fresh session id, the
  others are the readings of the \<open>add_message\<close> calls and of the response).
\<close>

record chat_env =
  api_key :: "ustr option"
  generate_content :: "ustr \<Rightarrow> llm_outcome"
  now_ms :: nat
  ts_system :: nat
  ts_user :: nat
  ts_assistant :: nat
  ts_response :: nat

definition model_name :: ustr where
  "model_name = str ''gemini-2.5-flash''"

definition missing_key_text :: ustr where
  "missing_key_text = str ''Server is missing GEMINI_API_KEY. Please set it in .env.''"

definition missing_key_response :: "nat \<Rightarrow> ustr \<Rightarrow> chat_response" where
  "missing_key_response ts sid =
     \<lparr>response = missing_key_text,
      model = model_name,
      resp_html =
        str ''<p><strong>Server is missing GEMINI_API_KEY.</strong> Please set it in .env.</p>'',
      resp_markdown = str ''**Server is missing GEMINI_API_KEY.** Please set it in .env.'',
      resp_segments = [\<lparr>seg_type = str ''error'', seg_text = missing_key_text\<rparr>],
      resp_timestamp = ts,
      resp_session_id = sid,
      resp_canvas_script =
        build_canvas_script 520 140 (str ''#0f172a'') (str ''#fff3f0'') (str ''#6b2800'')
          (str ''Server'') (str ''16px Arial'') 22 40\<rparr>"

definition success_response :: "nat \<Rightarrow> ustr \<Rightarrow> ustr \<Rightarrow> chat_response" where
  "success_response ts sid t =
     (let visual = build_visual_payload (Some t)
      in \<lparr>response = t,
          model = model_name,
          resp_html = html visual,
          resp_markdown = markdown visual,
          resp_segments = segments visual,
          resp_timestamp = ts,
          resp_session_id = sid,
          resp_canvas_script =
            build_canvas_script 520 180 (str ''#0f172a'') (str ''#ffffff'') (str ''#0b1220'')
              (str ''Assistant'') (str ''16px Inter, Arial'') 20 45\<rparr>)"

definition error_response :: "nat \<Rightarrow> ustr \<Rightarrow> ustr \<Rightarrow> chat_response" where
  "error_response ts sid err_text =
     (let visual = build_visual_payload (Some err_text)
      in \<lparr>response = err_text,
          model = model_name,
          resp_html = html visual,
          resp_markdown = markdown visual,
          resp_segments = segments visual,
          resp_timestamp = ts,
          resp_session_id = sid,
          resp_canvas_script =
            build_canvas_script 520 140 (str ''#0f172a'') (str ''#fff7f7'') (str ''#7a1f1f'')
              (str ''Assistant'') (str ''16px Arial'') 22 40\<rparr>)"

text \<open>The session id of a request: the caller's, or a fresh one from the clock.\<close>

definition resolve_session :: "chat_env \<Rightarrow> chat_request \<Rightarrow> ustr" where
  "resolve_session env req =
     (case session_id req of
        None \<Rightarrow> str ''session-'' @ decimal (now_ms env)
      | Some s \<Rightarrow> if s \<noteq> [] then s else str ''session-'' @ decimal (now_ms env))"

definition clamp_memory_size :: "chat_request \<Rightarrow> int" where
  "clamp_memory_size req =
     (case memory_size req of
        None \<Rightarrow> 6
      | Some m \<Rightarrow> if m \<noteq> 0 \<and> m > 0 then m else 6)"

definition error_text :: "ustr \<Rightarrow> ustr" where
  "error_text e = str ''Error communicating with Gemini API: '' @ e"

text \<open>
  The store after the optional \<open>system\<close> message of the request has been added, the
  store after the user's message has been added to that, and the prompt built from it
  (the variable \<open>prompt\<close> of \<open>chat\<close>).
\<close>

definition store_with_system :: "chat_env \<Rightarrow> chat_request \<Rightarrow> store \<Rightarrow> store" where
  "store_with_system env req st =
     (case system req of
        None \<Rightarrow> st
      | Some s \<Rightarrow>
          if s \<noteq> [] then add_message st (resolve_session env req) (str ''system'') s (ts_system env)
          else st)"

definition store_with_user :: "chat_env \<Rightarrow> chat_request \<Rightarrow> store \<Rightarrow> store" where
  "store_with_user env req st =
     add_message (store_with_system env req st) (resolve_session env req) (str ''user'')
       (message req) (ts_user env)"

definition chat_prompt :: "chat_env \<Rightarrow> chat_request \<Rightarrow> store \<Rightarrow> ustr" where
  "chat_prompt env req st =
     build_prompt_with_context (store_with_user env req st) (Some (resolve_session env req))
       (message req) (clamp_memory_size req)"

text \<open>
  \<open>chat\<close>: the response and the store after the request. The \<open>except\<close> clause
  catches every exception of the \<open>try\<close> block, and nothing outside the block can
  raise, so the handler always returns.
\<close>

definition chat :: "chat_env \<Rightarrow> chat_request \<Rightarrow> store \<Rightarrow> chat_response \<times> store" where
  "chat env req st =
     (let sid = resolve_session env req
      in if \<not> truthy (api_key env)
         then (missing_key_response (ts_response env) sid, store_with_system env req st)
         else
           (case generate_content env (chat_prompt env req st) of
              Replies r \<Rightarrow>
                (let t = (case r of
                            None \<Rightarrow> str ''(empty response)''
                          | Some x \<Rightarrow> if x \<noteq> [] then x else str ''(empty response)'');
                     st3 = add_message (store_with_user env req st) sid (str ''assistant'') t
                             (ts_assistant env)
                 in (success_response (ts_response env) sid t, st3))
            | Raises e \<Rightarrow>
                (let err_text = error_text e;
                     st3 = add_message (store_with_user env req st) sid (str ''assistant'') err_text
                             (ts_assistant env)
                 in (error_response (ts_response env) sid err_text, st3))))"

text \<open>
  The stores the server can be in: only \<open>chat\<close> adds messages, with a non-empty
  session id and one of the three role names, and \<open>clear\<close> removes a whole session.
  So no key is empty, no stored list is empty, no key occurs twice, and every role is
  \<open>system\<close>, \<open>user\<close> or \<open>assistant\<close>.
\<close>

definition valid_role :: "ustr \<Rightarrow> bool" where
  "valid_role r \<longleftrightarrow> r = str ''system'' \<or> r = str ''user'' \<or> r = str ''assistant''"

definition wf_store :: "store \<Rightarrow> bool" where
  "wf_store st \<longleftrightarrow>
     distinct (map fst st) \<and>
     list_all (\<lambda>(sid, items). sid \<noteq> [] \<and> items \<noteq> [] \<and> list_all (\<lambda>it. valid_role (role it)) items) st"

text \<open>
  A run of \<open>add_message\<close> calls, each with its session, role, text and clock reading.
\<close>

fun add_messages :: "store \<Rightarrow> (ustr \<times> ustr \<times> ustr \<times> nat) list \<Rightarrow> store" where
  "add_messages st [] = st"
| "add_messages st ((sid, r, t, ts) # calls) = add_messages (add_message st sid r t ts) calls"

text \<open>
  The paragraph fragments of an HTML output: \<open>build_visual_payload\<close> joins the
  fragments with a line feed and no fragment holds one, so they are the lines of the
  output.
\<close>

definition html_fragments :: "ustr \<Rightarrow> ustr list" where
  "html_fragments h = py_split [10] h"

text \<open>The message that one \<open>add_message\<close> call stores.\<close>

definition turn_of :: "ustr \<times> ustr \<times> ustr \<times> nat \<Rightarrow> turn" where
  "turn_of c = (case c of (sid, r, t, ts) \<Rightarrow> \<lparr>role = r, text = t, timestamp = ts\<rparr>)"

section \<open>Properties of the conversation memory\<close>

lemma get_all_update:
  "get_all (AList.update k v st) sid = (if sid = k then v else get_all st sid)"
  by (simp add: get_all_def update_conv')

lemma get_all_unknown: "sid \<notin> set (sessions st) \<Longrightarrow> get_all st sid = []"
proof -
  assume "sid \<notin> set (sessions st)"
  then have "map_of st sid = None"
    by (simp add: sessions_def map_of_eq_None_iff)
  then show ?thesis
    by (simp add: get_all_def)
qed

lemma get_all_add_message:
  "get_all (add_message st sid r t ts) sid' =
     (if sid' = sid then get_all st sid @ [\<lparr>role = r, text = t, timestamp = ts\<rparr>]
      else get_all st sid')"
  by (simp add: add_message_def Let_def get_all_update get_all_unknown)

lemma sessions_add_message:
  "sessions (add_message st sid r t ts) =
     (if sid \<in> set (sessions st) then sessions st else sessions st @ [sid])"
  by (simp add: add_message_def Let_def sessions_def update_keys dom_update)

lemma get_all_clear:
  "get_all (clear st sid) sid' = (if sid' = sid then [] else get_all st sid')"
  by (simp add: get_all_def clear_def delete_conv')

lemma sessions_clear: "sessions (clear st sid) = removeAll sid (sessions st)"
  by (simp add: sessions_def clear_def delete_keys)

text \<open>
  With a negative limit the slice \<open>items[-limit:]\<close> starts at the index \<open>-limit\<close>:
  the first \<open>-limit\<close> messages are left out.
\<close>

lemma get_recent_negative:
  "k < 0 \<Longrightarrow> get_recent st sid k = drop (nat (- k)) (get_all st sid)"
  by (simp add: get_recent_def Let_def slice_from_def)

text \<open>
  C1, as the code has it: for a limit \<open>k \<ge> 0\<close>, \<open>get_recent\<close> returns the last
  \<open>min k (length items)\<close> stored messages in their stored order when \<open>k\<close> is positive,
  and the whole stored list when \<open>k = 0\<close> or the list has at most \<open>k\<close> messages; for
  a session that is not in the store it returns the empty list, whatever the limit.
\<close>

theorem get_recent_window:
  "(0 \<le> k \<longrightarrow>
      get_recent st sid k =
        (if 0 < k
         then drop (length (get_all st sid) - min (nat k) (length (get_all st sid)))
                (get_all st sid)
         else get_all st sid) \<and>
      (k = 0 \<or> int (length (get_all st sid)) \<le> k \<longrightarrow> get_recent st sid k = get_all st sid)) \<and>
   (sid \<notin> set (sessions st) \<longrightarrow> get_recent st sid k = [])"
proof -
  have "nat (int (length xs) - k) = length xs - nat k" if "0 < k" for xs :: "turn list"
    using that by linarith
  then show ?thesis
    by (auto simp: get_recent_def Let_def slice_from_def get_all_unknown min_def)
qed

theorem get_recent_window_witness:
  "(0::int) \<le> 1 \<and> str ''s'' \<notin> set (sessions []) \<and>
   get_recent [(str ''s'', [\<lparr>role = str ''user'', text = str ''Hi'', timestamp = 1\<rparr>,
                            \<lparr>role = str ''assistant'', text = str ''Hello!'', timestamp = 2\<rparr>])]
     (str ''s'') 1 = [\<lparr>role = str ''assistant'', text = str ''Hello!'', timestamp = 2\<rparr>] \<and>
   get_recent [] (str ''s'') 1 = []"
  using get_recent_window [of 1 "[(str ''s'',
            [\<lparr>role = str ''user'', text = str ''Hi'', timestamp = 1\<rparr>,
             \<lparr>role = str ''assistant'', text = str ''Hello!'', timestamp = 2\<rparr>])]" "str ''s''"]
    get_recent_window [of 1 "[]" "str ''s''"]
  by (simp add: get_all_def sessions_def str_def)

text \<open>
  C1 as the specification states it fails for a negative limit: with two stored
  messages and the limit \<open>-1\<close> the result is not the whole stored list.
\<close>

theorem get_recent_negative_counterexample:
  "get_recent [(str ''s'', [\<lparr>role = str ''user'', text = str ''Hi'', timestamp = 1\<rparr>,
                            \<lparr>role = str ''assistant'', text = str ''Hello!'', timestamp = 2\<rparr>])]
     (str ''s'') (- 1) \<noteq>
   get_all [(str ''s'', [\<lparr>role = str ''user'', text = str ''Hi'', timestamp = 1\<rparr>,
                         \<lparr>role = str ''assistant'', text = str ''Hello!'', timestamp = 2\<rparr>])]
     (str ''s'')"
  by (simp add: get_recent_def get_all_def slice_from_def str_def)

text \<open>
  C9: for distinct session ids \<open>s\<close> and \<open>t\<close>, neither \<open>add_message\<close> on \<open>s\<close> nor
  \<open>clear\<close> of \<open>s\<close> changes what \<open>get_all\<close> returns for \<open>t\<close>; the set of the session
  ids gains \<open>s\<close> by \<open>add_message\<close> and loses \<open>s\<close> by \<open>clear\<close>, and nothing else.
\<close>

theorem store_frame:
  "s \<noteq> t \<longrightarrow>
     get_all (add_message st s r x ts) t = get_all st t \<and>
     get_all (clear st s) t = get_all st t \<and>
     set (sessions (add_message st s r x ts)) = insert s (set (sessions st)) \<and>
     set (sessions (clear st s)) = set (sessions st) - {s}"
  by (auto simp: get_all_add_message get_all_clear sessions_add_message sessions_clear)

theorem store_frame_witness:
  "str ''a'' \<noteq> str ''b'' \<and>
   get_all (add_message [(str ''b'', [\<lparr>role = str ''user'', text = str ''Hi'', timestamp = 1\<rparr>])]
              (str ''a'') (str ''user'') (str ''Yo'') 2) (str ''b'') =
     [\<lparr>role = str ''user'', text = str ''Hi'', timestamp = 1\<rparr>] \<and>
   set (sessions (clear [(str ''b'', [\<lparr>role = str ''user'', text = str ''Hi'', timestamp = 1\<rparr>])]
                    (str ''a''))) = {str ''b''}"
  using store_frame [of "str ''a''" "str ''b''"
      "[(str ''b'', [\<lparr>role = str ''user'', text = str ''Hi'', timestamp = 1\<rparr>])]"
      "str ''user''" "str ''Yo''" 2]
  by (simp add: get_all_def sessions_def str_def)

lemma get_all_add_messages:
  "get_all (add_messages st calls) sid =
     get_all st sid @ map turn_of (filter (\<lambda>c. fst c = sid) calls)"
  by (induction st calls rule: add_messages.induct)
     (auto simp: get_all_add_message turn_of_def)

text \<open>
  C5, as the code has it: after a run of \<open>add_message\<close> calls, started from a store
  without the session \<open>sid\<close>, \<open>get_all\<close> returns one message for each call of the run
  on \<open>sid\<close>, in the order of the calls, each with the role and the text of its call and
  with the clock reading of its call as time stamp. The time stamps are non-decreasing
  when the clock readings of the calls are: \<open>add_message\<close> stores the reading of the
  wall clock as it is.
\<close>

theorem add_messages_history:
  "sid \<notin> set (sessions st) \<longrightarrow>
     length (get_all (add_messages st calls) sid) =
       length (filter (\<lambda>c. fst c = sid) calls) \<and>
     map role (get_all (add_messages st calls) sid) =
       map (\<lambda>c. fst (snd c)) (filter (\<lambda>c. fst c = sid) calls) \<and>
     map text (get_all (add_messages st calls) sid) =
       map (\<lambda>c. fst (snd (snd c))) (filter (\<lambda>c. fst c = sid) calls) \<and>
     map timestamp (get_all (add_messages st calls) sid) =
       map (\<lambda>c. snd (snd (snd c))) (filter (\<lambda>c. fst c = sid) calls) \<and>
     (sorted (map (\<lambda>c. snd (snd (snd c))) calls) \<longrightarrow>
        sorted (map timestamp (get_all (add_messages st calls) sid)))"
proof
  assume fresh: "sid \<notin> set (sessions st)"
  let ?mine = "filter (\<lambda>c. fst c = sid) calls"
  have h: "get_all (add_messages st calls) sid = map turn_of ?mine"
    by (simp add: get_all_add_messages get_all_unknown [OF fresh])
  have ts: "map timestamp (map turn_of ?mine) = map (\<lambda>c. snd (snd (snd c))) ?mine"
    by (simp add: turn_of_def split_beta)
  have "sorted (map (\<lambda>c. snd (snd (snd c))) ?mine)"
    if "sorted (map (\<lambda>c. snd (snd (snd c))) calls)"
    using that by (induction calls) auto
  then show "length (get_all (add_messages st calls) sid) = length ?mine \<and>
     map role (get_all (add_messages st calls) sid) = map (\<lambda>c. fst (snd c)) ?mine \<and>
     map text (get_all (add_messages st calls) sid) = map (\<lambda>c. fst (snd (snd c))) ?mine \<and>
     map timestamp (get_all (add_messages st calls) sid) = map (\<lambda>c. snd (snd (snd c))) ?mine \<and>
     (sorted (map (\<lambda>c. snd (snd (snd c))) calls) \<longrightarrow>
        sorted (map timestamp (get_all (add_messages st calls) sid)))"
    unfolding h ts by (simp add: turn_of_def split_beta)
qed

theorem add_messages_history_witness:
  "str ''s'' \<notin> set (sessions []) \<and>
   sorted (map (\<lambda>c. snd (snd (snd c)))
             [(str ''s'', str ''user'', str ''Hi'', 1::nat),
              (str ''s'', str ''assistant'', str ''Hello!'', 2)]) \<and>
   get_all (add_messages [] [(str ''s'', str ''user'', str ''Hi'', 1),
                             (str ''s'', str ''assistant'', str ''Hello!'', 2)]) (str ''s'') =
     [\<lparr>role = str ''user'', text = str ''Hi'', timestamp = 1\<rparr>,
      \<lparr>role = str ''assistant'', text = str ''Hello!'', timestamp = 2\<rparr>] \<and>
   sorted (map timestamp (get_all (add_messages [] [(str ''s'', str ''user'', str ''Hi'', 1),
                             (str ''s'', str ''assistant'', str ''Hello!'', 2)]) (str ''s'')))"
  using add_messages_history [of "str ''s''" "[]" "[(str ''s'', str ''user'', str ''Hi'', 1),
                             (str ''s'', str ''assistant'', str ''Hello!'', 2)]"]
  by (simp add: get_all_def sessions_def add_message_def str_def)

text \<open>
  C5 as stated fails when the wall clock is read at a smaller value by a later call:
  with the readings 5 and then 3 the stored time stamps decrease.
\<close>

theorem add_messages_clock_counterexample:
  "\<not> sorted (map timestamp
       (get_all (add_messages [] [(str ''s'', str ''user'', str ''Hi'', 5),
                                 (str ''s'', str ''assistant'', str ''Hello!'', 3)])
          (str ''s'')))"
  by (simp add: get_all_def add_message_def sessions_def str_def)

section \<open>Properties of the text operations\<close>

lemma take_eq_hd: "old \<noteq> [] \<Longrightarrow> take (length old) (c # cs) = old \<Longrightarrow> hd old = c"
  by (cases old) auto

lemma py_replace_Cons_other:
  "c \<notin> set old \<Longrightarrow> py_replace old new (c # s) = c # py_replace old new s"
  using take_eq_hd [of old c s] by (cases old) auto

lemma py_replace_first_other:
  "old \<noteq> [] \<Longrightarrow> hd old \<noteq> c \<Longrightarrow> py_replace old new (c # s) = c # py_replace old new s"
  using take_eq_hd [of old c s] by auto

lemma py_split_nonempty: "py_split sep s \<noteq> []"
  by (induction sep s rule: py_split.induct) (auto split: list.splits)

lemma py_split_first_other:
  "sep \<noteq> [] \<Longrightarrow> hd sep \<noteq> c \<Longrightarrow>
     py_split sep (c # s) = (c # hd (py_split sep s)) # tl (py_split sep s)"
  using take_eq_hd [of sep c s] py_split_nonempty [of sep s]
  by (auto split: list.splits)

lemma strip_Cons_nonspace: "\<not> is_space c \<Longrightarrow> strip (c # s) \<noteq> []"
proof -
  assume c: "\<not> is_space c"
  have "dropWhile is_space (rev s @ [c]) \<noteq> []"
    using c by (simp add: dropWhile_append)
  with c show ?thesis
    by (simp add: strip_def)
qed

text \<open>A text that starts with a character that is not white space has a paragraph.\<close>

lemma paragraphs_of_Cons_nonspace:
  assumes "\<not> is_space c"
  shows "paragraphs_of (c # s) \<noteq> []"
proof -
  have c10: "c \<noteq> 10"
    using assms by (auto simp: is_space_def)
  have "\<exists>p\<in>set (py_split sep (c # s)). strip p \<noteq> []" if "sep \<noteq> []" "hd sep = 10" for sep
  proof -
    have "py_split sep (c # s) = (c # hd (py_split sep s)) # tl (py_split sep s)"
      using that c10 by (intro py_split_first_other) auto
    then show ?thesis
      using strip_Cons_nonspace [OF assms] by auto
  qed
  from this [of "[10, 10]"] this [of "[10]"]
  show ?thesis
    by (auto simp: paragraphs_of_def filter_empty_conv)
qed

lemma normalize_newlines_Cons:
  "c \<noteq> 13 \<Longrightarrow> normalize_newlines (c # s) = c # normalize_newlines s"
  by (simp add: normalize_newlines_def py_replace_first_other)

section \<open>Properties of the visual payload\<close>

lemma segments_paragraph:
  "list_all (\<lambda>g. seg_type g = str ''paragraph'') (segments (build_visual_payload t))"
  by (simp add: build_visual_payload_def Let_def list_all_iff paragraph_segment_def)

lemma segments_error_text: "segments (build_visual_payload (Some (error_text e))) \<noteq> []"
proof -
  have "error_text e = 69 # (str ''rror communicating with Gemini API: '' @ e)"
    by (simp add: error_text_def str_def)
  moreover have "\<not> is_space 69"
    by (simp add: is_space_def)
  ultimately show ?thesis
    by (simp add: build_visual_payload_def Let_def normalize_newlines_Cons
        paragraphs_of_Cons_nonspace)
qed

text \<open>
  C7: the text \<open>"Line one.\n\nLine two\nstill two."\<close> has two paragraphs, with the HTML
  fragments \<open><p>Line one.</p>\<close> and \<open><p>Line two<br>still two.</p>\<close>, and its markdown
  output is the text itself.
\<close>

theorem visual_example:
  "build_visual_payload
     (Some (str ''Line one.'' @ [10, 10] @ str ''Line two'' @ [10] @ str ''still two.'')) =
   \<lparr>html = str ''<p>Line one.</p>'' @ [10] @ str ''<p>Line two<br>still two.</p>'',
    markdown = str ''Line one.'' @ [10, 10] @ str ''Line two'' @ [10] @ str ''still two.'',
    segments = [\<lparr>seg_type = str ''paragraph'', seg_text = str ''Line one.''\<rparr>,
                \<lparr>seg_type = str ''paragraph'',
                 seg_text = str ''Line two'' @ [10] @ str ''still two.''\<rparr>]\<rparr> \<and>
   map html_part
     (paragraphs_of (normalize_newlines
        (str ''Line one.'' @ [10, 10] @ str ''Line two'' @ [10] @ str ''still two.''))) =
     [str ''<p>Line one.</p>'', str ''<p>Line two<br>still two.</p>''] \<and>
   html_fragments (html (build_visual_payload
     (Some (str ''Line one.'' @ [10, 10] @ str ''Line two'' @ [10] @ str ''still two.'')))) =
     [str ''<p>Line one.</p>'', str ''<p>Line two<br>still two.</p>'']"
  by (simp add: build_visual_payload_def normalize_newlines_def paragraphs_of_def
      html_part_def paragraph_segment_def html_escape_def strip_def is_space_def str_def
      html_fragments_def Let_def)

section \<open>Properties of the prompt builder\<close>

text \<open>
  C6: for a session that holds the system message \<open>Be concise.\<close>, the user message
  \<open>Hi\<close> and the assistant message \<open>Hello!\<close>, in this order, the prompt for the new
  message \<open>How are you?\<close> with memory size 6 is made of the system header and the
  system line, a blank line, the history header, \<open>User: Hi\<close>, \<open>Assistant: Hello!\<close>,
  a blank line, \<open>User: How are you?\<close> and the last line \<open>Assistant:\<close>.
\<close>

theorem prompt_example:
  "sid \<noteq> [] \<and>
   get_all st sid =
     [\<lparr>role = str ''system'', text = str ''Be concise.'', timestamp = t1\<rparr>,
      \<lparr>role = str ''user'', text = str ''Hi'', timestamp = t2\<rparr>,
      \<lparr>role = str ''assistant'', text = str ''Hello!'', timestamp = t3\<rparr>] \<longrightarrow>
   prompt_parts st (Some sid) (str ''How are you?'') 6 =
     [str ''System instructions:'', str ''Be concise.'', [],
      history_header, str ''User: Hi'', str ''Assistant: Hello!'', [],
      str ''User: How are you?'', str ''Assistant:''] \<and>
   build_prompt_with_context st (Some sid) (str ''How are you?'') 6 =
     str ''System instructions:'' @ [10] @ str ''Be concise.'' @ [10] @ [10] @
     history_header @ [10] @ str ''User: Hi'' @ [10] @ str ''Assistant: Hello!'' @ [10] @ [10] @
     str ''User: How are you?'' @ [10] @ str ''Assistant:''"
  by (simp add: build_prompt_with_context_def prompt_parts_def system_section_def
      history_section_def get_recent_def system_header_def strip_def is_space_def
      upper_char_def lower_char_def str_def Let_def)

theorem prompt_example_witness:
  "str ''s1'' \<noteq> [] \<and>
   get_all
     [(str ''s1'', [\<lparr>role = str ''system'', text = str ''Be concise.'', timestamp = 1\<rparr>,
                    \<lparr>role = str ''user'', text = str ''Hi'', timestamp = 2\<rparr>,
                    \<lparr>role = str ''assistant'', text = str ''Hello!'', timestamp = 3\<rparr>])]
     (str ''s1'') =
     [\<lparr>role = str ''system'', text = str ''Be concise.'', timestamp = 1\<rparr>,
      \<lparr>role = str ''user'', text = str ''Hi'', timestamp = 2\<rparr>,
      \<lparr>role = str ''assistant'', text = str ''Hello!'', timestamp = 3\<rparr>] \<and>
   prompt_parts
     [(str ''s1'', [\<lparr>role = str ''system'', text = str ''Be concise.'', timestamp = 1\<rparr>,
                    \<lparr>role = str ''user'', text = str ''Hi'', timestamp = 2\<rparr>,
                    \<lparr>role = str ''assistant'', text = str ''Hello!'', timestamp = 3\<rparr>])]
     (Some (str ''s1'')) (str ''How are you?'') 6 =
     [str ''System instructions:'', str ''Be concise.'', [],
      history_header, str ''User: Hi'', str ''Assistant: Hello!'', [],
      str ''User: How are you?'', str ''Assistant:'']"
  using prompt_example [of "str ''s1''"
      "[(str ''s1'', [\<lparr>role = str ''system'', text = str ''Be concise.'', timestamp = 1\<rparr>,
                     \<lparr>role = str ''user'', text = str ''Hi'', timestamp = 2\<rparr>,
                     \<lparr>role = str ''assistant'', text = str ''Hello!'', timestamp = 3\<rparr>])]" 1 2 3]
  by (simp add: get_all_def str_def)

section \<open>Properties of the chat handler\<close>

lemma resolve_session_generate [simp]:
  "resolve_session (env\<lparr>generate_content := g\<rparr>) req = resolve_session env req"
  by (simp add: resolve_session_def split: option.splits)

lemma store_with_system_generate [simp]:
  "store_with_system (env\<lparr>generate_content := g\<rparr>) req st = store_with_system env req st"
  by (simp add: store_with_system_def split: option.splits)

lemma chat_without_key:
  "\<not> truthy (api_key env) \<Longrightarrow>
     chat env req st =
       (missing_key_response (ts_response env) (resolve_session env req),
        store_with_system env req st)"
  by (simp add: chat_def Let_def)

lemma store_with_system_others:
  "filter (\<lambda>it. role it \<noteq> str ''system'') (get_all (store_with_system env req st) sid) =
   filter (\<lambda>it. role it \<noteq> str ''system'') (get_all st sid)"
  by (simp add: store_with_system_def get_all_add_message split: option.splits)

text \<open>
  C3: with no API key configured, \<open>chat\<close> returns the fixed response (its text, HTML
  and markdown, and one segment of type \<open>error\<close>); the store is the old one, with the
  system message of the request added when the request has one, so in no session a
  message with another role is added; and the result does not depend on the client,
  which is not called.
\<close>

theorem chat_missing_key:
  "\<not> truthy (api_key env) \<longrightarrow>
     fst (chat env req st) = missing_key_response (ts_response env) (resolve_session env req) \<and>
     response (fst (chat env req st)) =
       str ''Server is missing GEMINI_API_KEY. Please set it in .env.'' \<and>
     resp_html (fst (chat env req st)) =
       str ''<p><strong>Server is missing GEMINI_API_KEY.</strong> Please set it in .env.</p>'' \<and>
     resp_markdown (fst (chat env req st)) =
       str ''**Server is missing GEMINI_API_KEY.** Please set it in .env.'' \<and>
     resp_segments (fst (chat env req st)) =
       [\<lparr>seg_type = str ''error'',
         seg_text = str ''Server is missing GEMINI_API_KEY. Please set it in .env.''\<rparr>] \<and>
     snd (chat env req st) =
       (case system req of
          None \<Rightarrow> st
        | Some s \<Rightarrow>
            if s \<noteq> [] then add_message st (resolve_session env req) (str ''system'') s (ts_system env)
            else st) \<and>
     filter (\<lambda>it. role it \<noteq> str ''system'') (get_all (snd (chat env req st)) sid) =
       filter (\<lambda>it. role it \<noteq> str ''system'') (get_all st sid) \<and>
     chat (env\<lparr>generate_content := g\<rparr>) req st = chat env req st"
proof
  assume nokey: "\<not> truthy (api_key env)"
  then have nokey': "\<not> truthy (api_key (env\<lparr>generate_content := g\<rparr>))"
    by simp
  have c: "chat env req st =
      (missing_key_response (ts_response env) (resolve_session env req),
       store_with_system env req st)"
    by (rule chat_without_key [OF nokey])
  have c': "chat (env\<lparr>generate_content := g\<rparr>) req st = chat env req st"
    unfolding c chat_without_key [OF nokey'] by simp
  have s: "store_with_system env req st =
      (case system req of
          None \<Rightarrow> st
        | Some s \<Rightarrow>
            if s \<noteq> [] then add_message st (resolve_session env req) (str ''system'') s (ts_system env)
            else st)"
    by (simp add: store_with_system_def)
  have r: "response (missing_key_response ts x) =
        str ''Server is missing GEMINI_API_KEY. Please set it in .env.''"
      "resp_html (missing_key_response ts x) =
        str ''<p><strong>Server is missing GEMINI_API_KEY.</strong> Please set it in .env.</p>''"
      "resp_markdown (missing_key_response ts x) =
        str ''**Server is missing GEMINI_API_KEY.** Please set it in .env.''"
      "resp_segments (missing_key_response ts x) =
        [\<lparr>seg_type = str ''error'',
          seg_text = str ''Server is missing GEMINI_API_KEY. Please set it in .env.''\<rparr>]"
    for ts x
    by (simp_all add: missing_key_response_def missing_key_text_def)
  show "fst (chat env req st) = missing_key_response (ts_response env) (resolve_session env req) \<and>
     response (fst (chat env req st)) =
       str ''Server is missing GEMINI_API_KEY. Please set it in .env.'' \<and>
     resp_html (fst (chat env req st)) =
       str ''<p><strong>Server is missing GEMINI_API_KEY.</strong> Please set it in .env.</p>'' \<and>
     resp_markdown (fst (chat env req st)) =
       str ''**Server is missing GEMINI_API_KEY.** Please set it in .env.'' \<and>
     resp_segments (fst (chat env req st)) =
       [\<lparr>seg_type = str ''error'',
         seg_text = str ''Server is missing GEMINI_API_KEY. Please set it in .env.''\<rparr>] \<and>
     snd (chat env req st) =
       (case system req of
          None \<Rightarrow> st
        | Some s \<Rightarrow>
            if s \<noteq> [] then add_message st (resolve_session env req) (str ''system'') s (ts_system env)
            else st) \<and>
     filter (\<lambda>it. role it \<noteq> str ''system'') (get_all (snd (chat env req st)) sid) =
       filter (\<lambda>it. role it \<noteq> str ''system'') (get_all st sid) \<and>
     chat (env\<lparr>generate_content := g\<rparr>) req st = chat env req st"
    unfolding c' unfolding c fst_conv snd_conv r
    using s store_with_system_others [of env req st sid] by simp
qed

theorem chat_missing_key_witness:
  "\<not> truthy (api_key \<lparr>api_key = None, generate_content = (\<lambda>p. Replies (Some (str ''Hello!''))),
       now_ms = 5, ts_system = 1, ts_user = 2, ts_assistant = 3, ts_response = 4\<rparr>) \<and>
   snd (chat \<lparr>api_key = None, generate_content = (\<lambda>p. Replies (Some (str ''Hello!''))),
       now_ms = 5, ts_system = 1, ts_user = 2, ts_assistant = 3, ts_response = 4\<rparr>
     \<lparr>message = str ''Hi'', session_id = Some (str ''s1''), memory_size = None,
      system = Some (str ''Be concise.'')\<rparr> []) =
     [(str ''s1'', [\<lparr>role = str ''system'', text = str ''Be concise.'', timestamp = 1\<rparr>])] \<and>
   response (fst (chat \<lparr>api_key = None, generate_content = (\<lambda>p. Replies (Some (str ''Hello!''))),
       now_ms = 5, ts_system = 1, ts_user = 2, ts_assistant = 3, ts_response = 4\<rparr>
     \<lparr>message = str ''Hi'', session_id = Some (str ''s1''), memory_size = None,
      system = Some (str ''Be concise.'')\<rparr> [])) =
     str ''Server is missing GEMINI_API_KEY. Please set it in .env.''"
  using chat_missing_key [of
      "\<lparr>api_key = None, generate_content = (\<lambda>p. Replies (Some (str ''Hello!''))),
        now_ms = 5, ts_system = 1, ts_user = 2, ts_assistant = 3, ts_response = 4\<rparr>"
      "\<lparr>message = str ''Hi'', session_id = Some (str ''s1''), memory_size = None,
        system = Some (str ''Be concise.'')\<rparr>" "[]" "str ''s1''" "\<lambda>p. Raises []"]
  by (simp add: truthy_def resolve_session_def add_message_def get_all_def sessions_def
      missing_key_response_def missing_key_text_def str_def)

text \<open>
  C4: when the API key is configured and the client raises an error with the detail
  \<open>e\<close> on the prompt of the request, \<open>chat\<close> returns a response and adds to the session,
  after the user's message, an assistant message whose text is
  \<open>Error communicating with Gemini API: \<close> followed by \<open>e\<close>; the response carries this
  text and what \<open>build_visual_payload\<close> makes of it: at least one segment, each of type
  \<open>paragraph\<close> and none of type \<open>error\<close>.
\<close>

theorem chat_llm_error:
  "truthy (api_key env) \<and> generate_content env (chat_prompt env req st) = Raises e \<longrightarrow>
     snd (chat env req st) =
       add_message (store_with_user env req st) (resolve_session env req) (str ''assistant'')
         (str ''Error communicating with Gemini API: '' @ e) (ts_assistant env) \<and>
     get_all (snd (chat env req st)) (resolve_session env req) =
       get_all (store_with_user env req st) (resolve_session env req) @
       [\<lparr>role = str ''assistant'', text = str ''Error communicating with Gemini API: '' @ e,
         timestamp = ts_assistant env\<rparr>] \<and>
     response (fst (chat env req st)) = str ''Error communicating with Gemini API: '' @ e \<and>
     resp_html (fst (chat env req st)) =
       html (build_visual_payload (Some (str ''Error communicating with Gemini API: '' @ e))) \<and>
     resp_markdown (fst (chat env req st)) =
       markdown (build_visual_payload (Some (str ''Error communicating with Gemini API: '' @ e))) \<and>
     resp_segments (fst (chat env req st)) =
       segments (build_visual_payload (Some (str ''Error communicating with Gemini API: '' @ e))) \<and>
     resp_segments (fst (chat env req st)) \<noteq> [] \<and>
     list_all (\<lambda>g. seg_type g = str ''paragraph'' \<and> seg_type g \<noteq> str ''error'')
       (resp_segments (fst (chat env req st)))"
proof
  assume a: "truthy (api_key env) \<and> generate_content env (chat_prompt env req st) = Raises e"
  have c: "chat env req st =
      (error_response (ts_response env) (resolve_session env req) (error_text e),
       add_message (store_with_user env req st) (resolve_session env req) (str ''assistant'')
         (error_text e) (ts_assistant env))"
    using a by (simp add: chat_def Let_def)
  have ne: "str ''paragraph'' \<noteq> str ''error''"
    by (simp add: str_def)
  have et: "str ''Error communicating with Gemini API: '' @ e = error_text e"
    by (simp add: error_text_def)
  show "snd (chat env req st) =
       add_message (store_with_user env req st) (resolve_session env req) (str ''assistant'')
         (str ''Error communicating with Gemini API: '' @ e) (ts_assistant env) \<and>
     get_all (snd (chat env req st)) (resolve_session env req) =
       get_all (store_with_user env req st) (resolve_session env req) @
       [\<lparr>role = str ''assistant'', text = str ''Error communicating with Gemini API: '' @ e,
         timestamp = ts_assistant env\<rparr>] \<and>
     response (fst (chat env req st)) = str ''Error communicating with Gemini API: '' @ e \<and>
     resp_html (fst (chat env req st)) =
       html (build_visual_payload (Some (str ''Error communicating with Gemini API: '' @ e))) \<and>
     resp_markdown (fst (chat env req st)) =
       markdown (build_visual_payload (Some (str ''Error communicating with Gemini API: '' @ e))) \<and>
     resp_segments (fst (chat env req st)) =
       segments (build_visual_payload (Some (str ''Error communicating with Gemini API: '' @ e))) \<and>
     resp_segments (fst (chat env req st)) \<noteq> [] \<and>
     list_all (\<lambda>g. seg_type g = str ''paragraph'' \<and> seg_type g \<noteq> str ''error'')
       (resp_segments (fst (chat env req st)))"
    unfolding et c
    using segments_paragraph [of "Some (error_text e)"] segments_error_text [of e] ne
    by (simp add: error_response_def Let_def get_all_add_message list_all_iff)
qed

theorem chat_llm_error_witness:
  "truthy (api_key \<lparr>api_key = Some (str ''k''), generate_content = (\<lambda>p. Raises (str ''quota'')),
       now_ms = 5, ts_system = 1, ts_user = 2, ts_assistant = 3, ts_response = 4\<rparr>) \<and>
   generate_content
     \<lparr>api_key = Some (str ''k''), generate_content = (\<lambda>p. Raises (str ''quota'')),
       now_ms = 5, ts_system = 1, ts_user = 2, ts_assistant = 3, ts_response = 4\<rparr>
     (chat_prompt
        \<lparr>api_key = Some (str ''k''), generate_content = (\<lambda>p. Raises (str ''quota'')),
          now_ms = 5, ts_system = 1, ts_user = 2, ts_assistant = 3, ts_response = 4\<rparr>
        \<lparr>message = str ''Hi'', session_id = Some (str ''s1''), memory_size = None,
          system = None\<rparr> []) = Raises (str ''quota'') \<and>
   get_all (snd (chat \<lparr>api_key = Some (str ''k''), generate_content = (\<lambda>p. Raises (str ''quota'')),
       now_ms = 5, ts_system = 1, ts_user = 2, ts_assistant = 3, ts_response = 4\<rparr>
     \<lparr>message = str ''Hi'', session_id = Some (str ''s1''), memory_size = None,
      system = None\<rparr> [])) (str ''s1'') =
     [\<lparr>role = str ''user'', text = str ''Hi'', timestamp = 2\<rparr>,
      \<lparr>role = str ''assistant'', text = str ''Error communicating with Gemini API: quota'',
       timestamp = 3\<rparr>]"
  using chat_llm_error [of
      "\<lparr>api_key = Some (str ''k''), generate_content = (\<lambda>p. Raises (str ''quota'')),
        now_ms = 5, ts_system = 1, ts_user = 2, ts_assistant = 3, ts_response = 4\<rparr>"
      "\<lparr>message = str ''Hi'', session_id = Some (str ''s1''), memory_size = None,
        system = None\<rparr>" "[]" "str ''quota''"]
  by (simp add: truthy_def resolve_session_def store_with_user_def store_with_system_def
      add_message_def get_all_def sessions_def str_def)

section \<open>The stores of the server\<close>

lemma wf_store_session:
  assumes "wf_store st" "sid \<in> set (sessions st)"
  shows "sid \<noteq> [] \<and> get_all st sid \<noteq> [] \<and> list_all (\<lambda>it. valid_role (role it)) (get_all st sid)"
proof -
  from assms(2) obtain items where m: "map_of st sid = Some items"
    by (cases "map_of st sid") (auto simp: sessions_def map_of_eq_None_iff)
  then have "(sid, items) \<in> set st"
    by (rule map_of_SomeD)
  with assms(1) have "sid \<noteq> [] \<and> items \<noteq> [] \<and> list_all (\<lambda>it. valid_role (role it)) items"
    by (auto simp: wf_store_def list_all_iff)
  with m show ?thesis
    by (simp add: get_all_def)
qed

text \<open>
  \<open>wf_store\<close> holds of the empty store of a fresh server and is kept by every
  operation that the server runs on its store.
\<close>

lemma add_message_update:
  "add_message st sid r t ts =
     AList.update sid (get_all st sid @ [\<lparr>role = r, text = t, timestamp = ts\<rparr>]) st"
  by (simp add: add_message_def Let_def get_all_update get_all_unknown)

lemma set_update_subset: "set (AList.update k v al) \<subseteq> insert (k, v) (set al)"
  by (induction al) auto

lemma wf_store_empty: "wf_store []"
  by (simp add: wf_store_def)

lemma wf_store_add_message:
  assumes "wf_store st" "sid \<noteq> []" "valid_role r"
  shows "wf_store (add_message st sid r t ts)"
proof -
  let ?item = "\<lparr>role = r, text = t, timestamp = ts\<rparr>"
  have old: "list_all (\<lambda>it. valid_role (role it)) (get_all st sid)"
  proof (cases "sid \<in> set (sessions st)")
    case True
    with assms(1) show ?thesis
      using wf_store_session [of st sid] by simp
  next
    case False
    then show ?thesis
      by (simp add: get_all_unknown)
  qed
  have "distinct (map fst (AList.update sid (get_all st sid @ [?item]) st))"
    using assms(1) by (simp add: wf_store_def distinct_update)
  moreover have "sid' \<noteq> [] \<and> items \<noteq> [] \<and> list_all (\<lambda>it. valid_role (role it)) items"
    if "(sid', items) \<in> set (AList.update sid (get_all st sid @ [?item]) st)" for sid' items
  proof -
    from that set_update_subset [of sid "get_all st sid @ [?item]" st]
    have "(sid', items) = (sid, get_all st sid @ [?item]) \<or> (sid', items) \<in> set st"
      by auto
    then show ?thesis
      using assms old by (auto simp: wf_store_def list_all_iff)
  qed
  ultimately show ?thesis
    unfolding add_message_update by (auto simp: wf_store_def list_all_iff)
qed

lemma wf_store_clear: "wf_store st \<Longrightarrow> wf_store (clear st sid)"
proof -
  assume wf: "wf_store st"
  have "set (AList.delete sid st) \<subseteq> set st"
    by (auto simp: AList.delete_eq)
  with wf show ?thesis
    unfolding wf_store_def clear_def list_all_iff
    by (simp add: distinct_delete) blast
qed

lemma resolve_session_nonempty: "resolve_session env req \<noteq> []"
  by (simp add: resolve_session_def str_def split: option.splits)

lemma valid_role_names:
  "valid_role (str ''system'')" "valid_role (str ''user'')" "valid_role (str ''assistant'')"
  by (simp_all add: valid_role_def)

lemma wf_store_with_system: "wf_store st \<Longrightarrow> wf_store (store_with_system env req st)"
  by (simp add: store_with_system_def wf_store_add_message resolve_session_nonempty
      valid_role_names split: option.splits)

lemma wf_store_chat: "wf_store st \<Longrightarrow> wf_store (snd (chat env req st))"
  by (simp add: chat_def Let_def store_with_user_def wf_store_with_system wf_store_add_message
      resolve_session_nonempty valid_role_names split: llm_outcome.splits)

section \<open>The history section of the prompt\<close>

lemma history_lines_filter:
  "history_lines items =
     map (\<lambda>it. capitalize (role it) @ str '': '' @ strip (text it))
       (filter (\<lambda>it. role it \<noteq> str ''system'') items)"
  by (induction items) (simp_all add: Let_def)

lemma valid_role_not_system:
  "valid_role r \<Longrightarrow> r \<noteq> str ''system'' \<longleftrightarrow> r = str ''user'' \<or> r = str ''assistant''"
  by (auto simp: valid_role_def str_def)

lemma set_slice_from: "set (slice_from xs i) \<subseteq> set xs"
  by (auto simp: slice_from_def dest: in_set_dropD)

lemma set_get_recent: "set (get_recent st sid m) \<subseteq> set (get_all st sid)"
  using set_slice_from [of "get_all st sid" "- m"]
  by (auto simp: get_recent_def Let_def)

lemma get_recent_nonempty:
  "0 \<le> m \<Longrightarrow> get_all st sid \<noteq> [] \<Longrightarrow> get_recent st sid m \<noteq> []"
  by (auto simp: get_recent_def Let_def slice_from_def)

lemma length_get_recent: "0 < m \<Longrightarrow> length (get_recent st sid m) \<le> nat m"
  by (auto simp: get_recent_def Let_def slice_from_def)

lemma get_recent_last:
  assumes "0 \<le> m"
  shows "get_recent st sid m =
       (if 0 < m then drop (length (get_all st sid) - nat m) (get_all st sid)
        else get_all st sid)"
proof -
  have "nat (int (length xs) - m) = length xs - nat m" if "0 < m" for xs :: "turn list"
    using that by linarith
  with assms show ?thesis
    by (auto simp: get_recent_def Let_def slice_from_def)
qed

lemma capitalize_roles:
  "capitalize (str ''user'') = str ''User''"
  "capitalize (str ''assistant'') = str ''Assistant''"
  by (simp_all add: str_def upper_char_def lower_char_def)

text \<open>
  C2: in a store of the server, for a session of the store and a memory size \<open>m\<close>, the
  window \<open>get_recent st sid m\<close> is the last \<open>min m (length items)\<close> messages of the
  session in their stored order (all of them when \<open>m = 0\<close>), and the history section
  of the prompt is the header, then one line \<open>Role: text\<close> (the role capitalized, the
  text stripped) for each message of this window whose role is \<open>user\<close> or
  \<open>assistant\<close>, in the order of the window, then the empty line. The system messages
  of the window are left out, so the lines can be fewer than the memory size; when the
  window holds system messages only, the section is the header and the empty line.
\<close>

theorem history_section_window:
  "wf_store st \<and> sid \<in> set (sessions st) \<and> 0 \<le> m \<longrightarrow>
     get_recent st sid m =
       (if 0 < m then drop (length (get_all st sid) - nat m) (get_all st sid)
        else get_all st sid) \<and>
     (0 < m \<longrightarrow>
        length (get_recent st sid m) = min (nat m) (length (get_all st sid)) \<and>
        history_section st (Some sid) m =
          [history_header] @
          map (\<lambda>it. capitalize (role it) @ str '': '' @ strip (text it))
            (filter (\<lambda>it. role it = str ''user'' \<or> role it = str ''assistant'')
               (drop (length (get_all st sid) - nat m) (get_all st sid))) @
          [[]]) \<and>
     history_section st (Some sid) m =
       [history_header] @
       map (\<lambda>it. capitalize (role it) @ str '': '' @ strip (text it))
         (filter (\<lambda>it. role it = str ''user'' \<or> role it = str ''assistant'')
            (get_recent st sid m)) @
       [[]] \<and>
     capitalize (str ''user'') = str ''User'' \<and>
     capitalize (str ''assistant'') = str ''Assistant'' \<and>
     (0 < m \<longrightarrow>
        length (filter (\<lambda>it. role it = str ''user'' \<or> role it = str ''assistant'')
                  (get_recent st sid m)) \<le> nat m) \<and>
     (list_all (\<lambda>it. role it = str ''system'') (get_recent st sid m) \<longrightarrow>
        history_section st (Some sid) m = [history_header, []])"
proof
  assume a: "wf_store st \<and> sid \<in> set (sessions st) \<and> 0 \<le> m"
  let ?recent = "get_recent st sid m"
  let ?items = "get_all st sid"
  let ?conv = "\<lambda>it. role it = str ''user'' \<or> role it = str ''assistant''"
  from a have s: "sid \<noteq> []" "?items \<noteq> []"
      "list_all (\<lambda>it. valid_role (role it)) ?items"
    using wf_store_session [of st sid] by simp_all
  have win: "?recent = (if 0 < m then drop (length ?items - nat m) ?items else ?items)"
    using a by (simp add: get_recent_last)
  have ne: "?recent \<noteq> []"
    using a s(2) by (simp add: get_recent_nonempty)
  have "\<forall>it\<in>set ?recent. valid_role (role it)"
    using s(3) set_get_recent [of st sid m] by (auto simp: list_all_iff)
  then have f: "filter (\<lambda>it. role it \<noteq> str ''system'') ?recent = filter ?conv ?recent"
    by (intro filter_cong) (auto simp: valid_role_not_system)
  have sec: "history_section st (Some sid) m =
      [history_header] @
      map (\<lambda>it. capitalize (role it) @ str '': '' @ strip (text it)) (filter ?conv ?recent) @ [[]]"
    using s(1) ne by (simp add: history_section_def Let_def history_lines_filter f)
  have pos: "length ?recent = min (nat m) (length ?items) \<and>
      history_section st (Some sid) m =
        [history_header] @
        map (\<lambda>it. capitalize (role it) @ str '': '' @ strip (text it))
          (filter ?conv (drop (length ?items - nat m) ?items)) @ [[]]"
    if "0 < m"
  proof -
    from that win have w: "?recent = drop (length ?items - nat m) ?items"
      by simp
    then have "length ?recent = min (nat m) (length ?items)"
      by (simp add: min_def)
    with sec w show ?thesis
      by simp
  qed
  have len: "length (filter ?conv ?recent) \<le> nat m" if "0 < m"
    using length_get_recent [OF that, of st sid] length_filter_le [of ?conv ?recent]
    by linarith
  have "filter ?conv ?recent = []" if "list_all (\<lambda>it. role it = str ''system'') ?recent"
    using that by (auto simp: list_all_iff filter_empty_conv str_def)
  then have only: "history_section st (Some sid) m = [history_header, []]"
    if "list_all (\<lambda>it. role it = str ''system'') ?recent"
    using that sec by simp
  show "?recent = (if 0 < m then drop (length ?items - nat m) ?items else ?items) \<and>
     (0 < m \<longrightarrow>
        length ?recent = min (nat m) (length ?items) \<and>
        history_section st (Some sid) m =
          [history_header] @
          map (\<lambda>it. capitalize (role it) @ str '': '' @ strip (text it))
            (filter ?conv (drop (length ?items - nat m) ?items)) @
          [[]]) \<and>
     history_section st (Some sid) m =
       [history_header] @
       map (\<lambda>it. capitalize (role it) @ str '': '' @ strip (text it)) (filter ?conv ?recent) @
       [[]] \<and>
     capitalize (str ''user'') = str ''User'' \<and>
     capitalize (str ''assistant'') = str ''Assistant'' \<and>
     (0 < m \<longrightarrow> length (filter ?conv ?recent) \<le> nat m) \<and>
     (list_all (\<lambda>it. role it = str ''system'') ?recent \<longrightarrow>
        history_section st (Some sid) m = [history_header, []])"
    using win pos sec len only capitalize_roles by blast
qed

theorem history_section_window_witness:
  "wf_store [(str ''s1'', [\<lparr>role = str ''user'', text = str ''Old'', timestamp = 1\<rparr>,
                           \<lparr>role = str ''system'', text = str ''Be concise.'', timestamp = 2\<rparr>,
                           \<lparr>role = str ''user'', text = str '' Hi '', timestamp = 3\<rparr>])] \<and>
   str ''s1'' \<in> set (sessions
        [(str ''s1'', [\<lparr>role = str ''user'', text = str ''Old'', timestamp = 1\<rparr>,
                       \<lparr>role = str ''system'', text = str ''Be concise.'', timestamp = 2\<rparr>,
                       \<lparr>role = str ''user'', text = str '' Hi '', timestamp = 3\<rparr>])]) \<and>
   (0::int) < 2 \<and>
   get_recent
     [(str ''s1'', [\<lparr>role = str ''user'', text = str ''Old'', timestamp = 1\<rparr>,
                    \<lparr>role = str ''system'', text = str ''Be concise.'', timestamp = 2\<rparr>,
                    \<lparr>role = str ''user'', text = str '' Hi '', timestamp = 3\<rparr>])]
     (str ''s1'') 2 =
     [\<lparr>role = str ''system'', text = str ''Be concise.'', timestamp = 2\<rparr>,
      \<lparr>role = str ''user'', text = str '' Hi '', timestamp = 3\<rparr>] \<and>
   history_section
     [(str ''s1'', [\<lparr>role = str ''user'', text = str ''Old'', timestamp = 1\<rparr>,
                    \<lparr>role = str ''system'', text = str ''Be concise.'', timestamp = 2\<rparr>,
                    \<lparr>role = str ''user'', text = str '' Hi '', timestamp = 3\<rparr>])]
     (Some (str ''s1'')) 2 = [history_header, str ''User: Hi'', []]"
  using history_section_window [of
      "[(str ''s1'', [\<lparr>role = str ''user'', text = str ''Old'', timestamp = 1\<rparr>,
                      \<lparr>role = str ''system'', text = str ''Be concise.'', timestamp = 2\<rparr>,
                      \<lparr>role = str ''user'', text = str '' Hi '', timestamp = 3\<rparr>])]"
      "str ''s1''" 2]
  by (simp add: wf_store_def sessions_def valid_role_def get_all_def
      strip_def is_space_def upper_char_def lower_char_def str_def)

section \<open>Occurrences, replacement and splitting\<close>

lemma py_in_iff: "py_in sub s \<longleftrightarrow> (\<exists>a b. s = a @ sub @ b)"
proof
  show "py_in sub s \<Longrightarrow> \<exists>a b. s = a @ sub @ b"
  proof (induction s)
    case Nil
    then show ?case by simp
  next
    case (Cons c cs)
    show ?case
    proof (cases "take (length sub) (c # cs) = sub")
      case True
      then have "c # cs = [] @ sub @ drop (length sub) (c # cs)"
        by (metis append_Nil append_take_drop_id)
      then show ?thesis by blast
    next
      case False
      with Cons obtain a b where "cs = a @ sub @ b"
        by auto
      then have "c # cs = (c # a) @ sub @ b"
        by simp
      then show ?thesis by blast
    qed
  qed
next
  assume "\<exists>a b. s = a @ sub @ b"
  then obtain a b where s: "s = a @ sub @ b"
    by blast
  have "py_in sub (a @ sub @ b)"
  proof (induction a)
    case Nil
    have "take (length sub) (sub @ b) = sub"
      by simp
    then show ?case
      by (cases "sub @ b") auto
  next
    case (Cons x a)
    then show ?case by simp
  qed
  with s show "py_in sub s" by simp
qed

lemma py_in_prefix: "py_in (u @ v) s \<Longrightarrow> py_in u s"
  unfolding py_in_iff by (metis append.assoc)

lemma py_in_pair_append:
  "py_in [x, y] (a @ b) \<longleftrightarrow>
     py_in [x, y] a \<or> py_in [x, y] b \<or> (a \<noteq> [] \<and> last a = x \<and> b \<noteq> [] \<and> hd b = y)"
proof (induction a)
  case Nil
  then show ?case by simp
next
  case (Cons c a)
  show ?case
  proof (cases a)
    case Nil
    then show ?thesis by (cases b) auto
  next
    case (Cons d a')
    with Cons.IH show ?thesis by auto
  qed
qed

lemma py_replace_single:
  "py_replace [c] new s = concat (map (\<lambda>x. if x = c then new else [x]) s)"
  by (induction s) auto

lemma concat_map_concat_map:
  "concat (map g (concat (map f s))) = concat (map (\<lambda>x. concat (map g (f x))) s)"
  by (induction s) auto

lemma html_escape_concat: "html_escape s = concat (map escape_char s)"
  by (induction s)
     (simp_all add: html_escape_def Let_def py_replace_single escape_char_def str_def)

lemma html_escape_append: "html_escape (a @ b) = html_escape a @ html_escape b"
  by (simp add: html_escape_concat)

lemma html_escape_no_markup: "set (html_escape s) \<inter> {60, 62, 34, 39} = {}"
proof -
  have "set (escape_char c) \<inter> {60, 62, 34, 39} = {}" for c
    by (simp add: escape_char_def str_def)
  then show ?thesis
    by (auto simp: html_escape_concat)
qed



lemma py_split_Cons_other:
  "c \<notin> set sep \<Longrightarrow> py_split sep (c # s) = (c # hd (py_split sep s)) # tl (py_split sep s)"
  using take_eq_hd [of sep c s] py_split_nonempty [of sep s]
  by (cases sep) (auto split: list.splits)






lemma take_append_other:
  assumes "m \<noteq> []" "hd m \<notin> set old"
  shows "take (length old) (a @ m @ b) = old \<longleftrightarrow> take (length old) a = old"
proof (cases "length old \<le> length a")
  case True
  then show ?thesis by simp
next
  case False
  then have short: "length a < length old"
    by simp
  have "take (length old) (a @ m @ b) \<noteq> old"
  proof
    assume eq: "take (length old) (a @ m @ b) = old"
    have "(a @ m @ b) ! length a = hd m"
      using assms(1) by (cases m) (simp_all add: nth_append)
    moreover have "take (length old) (a @ m @ b) ! length a = (a @ m @ b) ! length a"
      using short by (rule nth_take)
    ultimately have "old ! length a = hd m"
      using eq by simp
    with short assms(2) show False
      by (metis nth_mem)
  qed
  moreover have "take (length old) a \<noteq> old"
  proof
    assume "take (length old) a = old"
    from arg_cong [OF this, of length] have "min (length a) (length old) = length old"
      by (simp only: length_take)
    with short show False
      by simp
  qed
  ultimately show ?thesis
    by simp
qed

lemma py_replace_keep_front:
  "set m \<inter> set old = {} \<Longrightarrow> py_replace old new (m @ b) = m @ py_replace old new b"
  by (induction m) (simp_all add: py_replace_Cons_other del: py_replace.simps)

lemma py_replace_keep:
  "set m \<inter> set old = {} \<Longrightarrow> m \<noteq> [] \<Longrightarrow>
     py_replace old new (a @ m @ b) = py_replace old new a @ m @ py_replace old new b"
proof (induction old new a rule: py_replace.induct)
  case (1 old new)
  then show ?case
    by (simp add: py_replace_keep_front)
next
  case (2 old new c cs)
  have hd: "hd m \<notin> set old"
    using "2.prems" by (cases m) auto
  have t: "take (length old) (c # cs @ m @ b) = old \<longleftrightarrow> take (length old) (c # cs) = old"
    using take_append_other [OF "2.prems"(2) hd, of "c # cs" b] by simp
  show ?case
  proof (cases "old \<noteq> [] \<and> take (length old) (c # cs) = old")
    case True
    then have "length old \<le> length (c # cs)"
      by (metis length_take min.cobounded1)
    with True have d: "drop (length old) (c # cs @ m @ b) = drop (length old) (c # cs) @ m @ b"
      by (cases old) simp_all
    from True t have "py_replace old new (c # cs @ m @ b) =
        new @ py_replace old new (drop (length old) (c # cs @ m @ b))"
      by simp
    also have "\<dots> = new @ py_replace old new (drop (length old) (c # cs)) @ m @ py_replace old new b"
      unfolding d using "2.IH"(1) [OF True "2.prems"] by simp
    finally show ?thesis
      using True by simp
  next
    case False
    with t have "py_replace old new (c # cs @ m @ b) = c # py_replace old new (cs @ m @ b)"
      by auto
    with False "2.IH"(2) [OF False "2.prems"] show ?thesis
      by auto
  qed
qed

lemma py_split_keep_front:
  "set m \<inter> set sep = {} \<Longrightarrow> \<exists>p2. hd (py_split sep (m @ b)) = m @ p2"
  by (induction m) (simp_all add: py_split_Cons_other del: py_split.simps)

lemma py_split_keep:
  "set m \<inter> set sep = {} \<Longrightarrow> m \<noteq> [] \<Longrightarrow>
     \<exists>p1 p2. p1 @ m @ p2 \<in> set (py_split sep (a @ m @ b))"
proof (induction sep a rule: py_split.induct)
  case (1 sep)
  from py_split_keep_front [OF "1.prems"(1), of b] obtain p2
    where "hd (py_split sep (m @ b)) = m @ p2"
    by blast
  then have "[] @ m @ p2 \<in> set (py_split sep ([] @ m @ b))"
    using py_split_nonempty [of sep "m @ b"] by (metis append_Nil hd_in_set)
  then show ?case
    by blast
next
  case (2 sep c cs)
  have hd: "hd m \<notin> set sep"
    using "2.prems" by (cases m) auto
  have t: "take (length sep) (c # cs @ m @ b) = sep \<longleftrightarrow> take (length sep) (c # cs) = sep"
    using take_append_other [OF "2.prems"(2) hd, of "c # cs" b] by simp
  show ?case
  proof (cases "sep \<noteq> [] \<and> take (length sep) (c # cs) = sep")
    case True
    then have "length sep \<le> length (c # cs)"
      by (metis length_take min.cobounded1)
    with True have d: "drop (length sep) (c # cs @ m @ b) = drop (length sep) (c # cs) @ m @ b"
      by (cases sep) simp_all
    from True t have "py_split sep (c # cs @ m @ b) =
        [] # py_split sep (drop (length sep) (c # cs) @ m @ b)"
      unfolding d [symmetric] by simp
    moreover from "2.IH"(1) [OF True "2.prems"] obtain p1 p2
      where "p1 @ m @ p2 \<in> set (py_split sep (drop (length sep) (c # cs) @ m @ b))"
      by blast
    ultimately have "p1 @ m @ p2 \<in> set (py_split sep ((c # cs) @ m @ b))"
      by simp
    then show ?thesis
      by blast
  next
    case False
    from "2.IH"(2) [OF False "2.prems"] obtain p1 p2
      where in_rest: "p1 @ m @ p2 \<in> set (py_split sep (cs @ m @ b))"
      by blast
    obtain p ps where r: "py_split sep (cs @ m @ b) = p # ps"
      using py_split_nonempty [of sep "cs @ m @ b"] by (cases "py_split sep (cs @ m @ b)") auto
    from False t r have s: "py_split sep ((c # cs) @ m @ b) = (c # p) # ps"
      by auto
    from in_rest r have "p1 @ m @ p2 = p \<or> p1 @ m @ p2 \<in> set ps"
      by auto
    then show ?thesis
    proof
      assume "p1 @ m @ p2 = p"
      then have "(c # p1) @ m @ p2 \<in> set (py_split sep ((c # cs) @ m @ b))"
        unfolding s by simp
      then show ?thesis
        by blast
    next
      assume "p1 @ m @ p2 \<in> set ps"
      then have "p1 @ m @ p2 \<in> set (py_split sep ((c # cs) @ m @ b))"
        unfolding s by simp
      then show ?thesis
        by blast
    qed
  qed
qed

lemma dropWhile_keep:
  "m \<noteq> [] \<Longrightarrow> \<not> P (hd m) \<Longrightarrow> \<exists>q. dropWhile P (p @ m @ r) = q @ m @ r"
proof (induction p)
  case Nil
  then have "dropWhile P ([] @ m @ r) = [] @ m @ r"
    by (cases m) simp_all
  then show ?case
    by blast
next
  case (Cons x p)
  show ?case
  proof (cases "P x")
    case True
    with Cons show ?thesis
      by simp
  next
    case False
    then have "dropWhile P ((x # p) @ m @ r) = (x # p) @ m @ r"
      by simp
    then show ?thesis
      by blast
  qed
qed

lemma strip_keep:
  assumes "m \<noteq> []" "\<forall>c\<in>set m. \<not> is_space c"
  shows "\<exists>q1 q2. strip (p1 @ m @ p2) = q1 @ m @ q2"
proof -
  have h: "\<not> is_space (hd m)" and l: "\<not> is_space (last m)"
    using assms by simp_all
  from dropWhile_keep [of m is_space p1 p2, OF assms(1) h] obtain q1
    where d: "dropWhile is_space (p1 @ m @ p2) = q1 @ m @ p2"
    by blast
  have "rev m \<noteq> []" "\<not> is_space (hd (rev m))"
    using assms(1) l by (simp_all add: hd_rev)
  from dropWhile_keep [of "rev m" is_space "rev p2" "rev q1", OF this] obtain q2
    where "dropWhile is_space (rev p2 @ rev m @ rev q1) = q2 @ rev m @ rev q1"
    by blast
  then have "strip (p1 @ m @ p2) = q1 @ m @ rev q2"
    by (simp add: strip_def d)
  then show ?thesis
    by blast
qed

lemma py_join_member: "x \<in> set xs \<Longrightarrow> \<exists>a b. py_join sep xs = a @ x @ b"
proof (induction sep xs rule: py_join.induct)
  case (1 sep)
  then show ?case by simp
next
  case (2 sep y)
  then have "py_join sep [y] = [] @ x @ []"
    by simp
  then show ?case
    by blast
next
  case (3 sep y z zs)
  show ?case
  proof (cases "x = y")
    case True
    then have "py_join sep (y # z # zs) = [] @ x @ (sep @ py_join sep (z # zs))"
      by simp
    then show ?thesis
      by blast
  next
    case False
    with 3 obtain a b where "py_join sep (z # zs) = a @ x @ b"
      by auto
    then have "py_join sep (y # z # zs) = (y @ sep @ a) @ x @ b"
      by simp
    then show ?thesis
      by blast
  qed
qed

section \<open>The shape of the visual payload\<close>


lemma build_visual_payload_fields:
  "segments (build_visual_payload t) =
     map paragraph_segment
       (paragraphs_of (normalize_newlines (case t of None \<Rightarrow> [] | Some x \<Rightarrow> x)))"
  "markdown (build_visual_payload t) =
     py_join [10, 10] (paragraphs_of (normalize_newlines (case t of None \<Rightarrow> [] | Some x \<Rightarrow> x)))"
  "html (build_visual_payload t) =
     (if paragraphs_of (normalize_newlines (case t of None \<Rightarrow> [] | Some x \<Rightarrow> x)) \<noteq> []
      then py_join [10]
             (map html_part
                (paragraphs_of (normalize_newlines (case t of None \<Rightarrow> [] | Some x \<Rightarrow> x))))
      else str ''<p>(empty)</p>'')"
  by (simp_all add: build_visual_payload_def Let_def)




section \<open>Escaping in the HTML output\<close>

lemma escape_char_newline: "10 \<in> set (escape_char c) \<Longrightarrow> c = 10"
  by (simp add: escape_char_def str_def split: if_splits)

lemma html_escape_newline: "10 \<in> set (html_escape m) \<Longrightarrow> 10 \<in> set m"
  by (auto simp: html_escape_concat dest: escape_char_newline)

lemma paragraphs_of_keep:
  assumes "m \<noteq> []" "\<forall>c\<in>set m. \<not> is_space c"
  shows "\<exists>q1 q2. q1 @ m @ q2 \<in> set (paragraphs_of (a @ m @ b))"
proof -
  have nl: "\<not> is_space c \<Longrightarrow> c \<noteq> 10" for c
    by (auto simp: is_space_def)
  have piece: "\<exists>q1 q2. q1 @ m @ q2 \<in> strip ` {p \<in> set (py_split sep (a @ m @ b)). strip p \<noteq> []}"
    if sep: "set sep \<subseteq> {10}" for sep
  proof -
    have "set m \<inter> set sep = {}"
      using assms(2) sep nl by auto
    from py_split_keep [OF this assms(1), of a b] obtain p1 p2
      where p: "p1 @ m @ p2 \<in> set (py_split sep (a @ m @ b))"
      by blast
    from strip_keep [OF assms, of p1 p2] obtain q1 q2
      where q: "strip (p1 @ m @ p2) = q1 @ m @ q2"
      by blast
    with assms(1) have "strip (p1 @ m @ p2) \<noteq> []"
      by simp
    with p q have "q1 @ m @ q2 \<in> strip ` {p \<in> set (py_split sep (a @ m @ b)). strip p \<noteq> []}"
      by (metis (mono_tags, lifting) image_eqI mem_Collect_eq)
    then show ?thesis
      by blast
  qed
  from piece [of "[10, 10]"] piece [of "[10]"] show ?thesis
    by (simp add: paragraphs_of_def)
qed

lemma normalize_newlines_keep:
  assumes "m \<noteq> []" "\<forall>c\<in>set m. \<not> is_space c"
  shows "\<exists>a' b'. normalize_newlines (a @ m @ b) = a' @ m @ b'"
proof -
  have "\<not> is_space c \<Longrightarrow> c \<noteq> 10 \<and> c \<noteq> 13" for c
    by (auto simp: is_space_def)
  with assms(2) have "set m \<inter> set [13, 10] = {}" "set m \<inter> set [13] = {}"
    by auto
  then have "normalize_newlines (a @ m @ b) =
      py_replace [13] [10] (py_replace [13, 10] [10] a) @ m @
      py_replace [13] [10] (py_replace [13, 10] [10] b)"
    using assms(1) by (simp add: normalize_newlines_def py_replace_keep del: py_replace.simps)
  then show ?thesis
    by blast
qed

text \<open>A run of characters without white space in the input is in the HTML output, escaped.\<close>

lemma escaped_run_in_html:
  assumes "m \<noteq> []" "\<forall>c\<in>set m. \<not> is_space c" "py_in m x"
  shows "py_in (html_escape m) (html (build_visual_payload (Some x)))"
proof -
  let ?ps = "paragraphs_of (normalize_newlines x)"
  from assms(3) obtain a b where "x = a @ m @ b"
    unfolding py_in_iff by blast
  with normalize_newlines_keep [OF assms(1,2), of a b] obtain a' b'
    where "normalize_newlines x = a' @ m @ b'"
    by auto
  with paragraphs_of_keep [OF assms(1,2), of a' b'] obtain q1 q2
    where q: "q1 @ m @ q2 \<in> set ?ps"
    by auto
  have "\<not> is_space c \<Longrightarrow> c \<noteq> 10" for c
    by (auto simp: is_space_def)
  with assms(2) have "10 \<notin> set m"
    by auto
  then have nl: "set (html_escape m) \<inter> set [10] = {}"
    using html_escape_newline [of m] by auto
  have ne: "html_escape m \<noteq> []"
    using assms(1) by (cases m) (auto simp: html_escape_concat escape_char_def str_def)
  have "html_part (q1 @ m @ q2) =
      (str ''<p>'' @ py_replace [10] (str ''<br>'') (html_escape q1)) @ html_escape m @
      (py_replace [10] (str ''<br>'') (html_escape q2) @ str ''</p>'')"
    by (simp add: html_part_def Let_def html_escape_append py_replace_keep [OF nl ne]
        del: py_replace.simps)
  moreover from q have "html_part (q1 @ m @ q2) \<in> set (map html_part ?ps)"
    by simp
  from py_join_member [OF this, of "[10]"] obtain u v
    where "py_join [10] (map html_part ?ps) = u @ html_part (q1 @ m @ q2) @ v"
    by blast
  moreover from q have "html (build_visual_payload (Some x)) = py_join [10] (map html_part ?ps)"
    by (auto simp: build_visual_payload_fields)
  ultimately have "html (build_visual_payload (Some x)) =
      (u @ str ''<p>'' @ py_replace [10] (str ''<br>'') (html_escape q1)) @ html_escape m @
      (py_replace [10] (str ''<br>'') (html_escape q2) @ str ''</p>'' @ v)"
    by simp
  then show ?thesis
    unfolding py_in_iff by blast
qed

text \<open>In the HTML output no \<open><\<close> is followed by the letter \<open>s\<close>.\<close>

lemma escaped_char_no_tag:
  "concat (map (\<lambda>x. if x = 10 then str ''<br>'' else [x]) (escape_char c)) \<noteq> [] \<and>
   last (concat (map (\<lambda>x. if x = 10 then str ''<br>'' else [x]) (escape_char c))) \<noteq> 60 \<and>
   \<not> py_in [60, 115] (concat (map (\<lambda>x. if x = 10 then str ''<br>'' else [x]) (escape_char c)))"
  by (simp add: escape_char_def str_def)

lemma no_tag_append:
  assumes "\<not> py_in [60, 115] u" "u \<noteq> [] \<longrightarrow> last u \<noteq> 60"
    and "\<not> py_in [60, 115] v" "v \<noteq> []" "last v \<noteq> 60"
  shows "\<not> py_in [60, 115] (u @ v) \<and> (u @ v \<noteq> [] \<longrightarrow> last (u @ v) \<noteq> 60)"
  using assms by (auto simp: py_in_pair_append simp del: py_in.simps)

lemma escaped_body_no_tag:
  "\<not> py_in [60, 115] (py_replace [10] (str ''<br>'') (html_escape p)) \<and>
   (py_replace [10] (str ''<br>'') (html_escape p) \<noteq> [] \<longrightarrow>
      last (py_replace [10] (str ''<br>'') (html_escape p)) \<noteq> 60)"
proof (induction p rule: rev_induct)
  case Nil
  then show ?case
    by (simp add: html_escape_concat)
next
  case (snoc c p)
  let ?h = "concat (map (\<lambda>x. if x = 10 then str ''<br>'' else [x]) (escape_char c))"
  have step: "py_replace [10] (str ''<br>'') (html_escape (p @ [c])) =
      py_replace [10] (str ''<br>'') (html_escape p) @ ?h"
    by (simp add: py_replace_single html_escape_concat)
  from snoc escaped_char_no_tag [of c] show ?case
    unfolding step by (intro no_tag_append) blast+
qed

lemma html_part_no_tag:
  "\<not> py_in [60, 115] (html_part p) \<and> html_part p \<noteq> [] \<and> last (html_part p) \<noteq> 60"
proof -
  let ?body = "py_replace [10] (str ''<br>'') (html_escape p)"
  have "html_part p = [60, 112, 62] @ ?body @ [60, 47, 112, 62]"
    by (simp add: html_part_def Let_def str_def)
  moreover have "\<not> py_in [60, 115] ([60, 112, 62] @ ?body @ [60, 47, 112, 62])"
    using escaped_body_no_tag [of p] by (simp add: py_in_pair_append)
  ultimately show ?thesis
    by simp
qed

lemma py_join_no_tag:
  fixes xs :: "ustr list"
  shows "\<forall>x\<in>set xs. \<not> py_in [60, 115] x \<and> x \<noteq> [] \<and> last x \<noteq> 60 \<Longrightarrow>
     \<not> py_in [60, 115] (py_join [10] xs)"
  by (induction "[10::nat]" xs rule: py_join.induct) (simp_all add: py_in_pair_append)

lemma html_no_tag: "\<not> py_in [60, 115] (html (build_visual_payload t))"
proof -
  have "\<not> py_in [60, 115] (py_join [10] (map html_part ps))" for ps
    by (rule py_join_no_tag) (simp add: html_part_no_tag)
  moreover have "\<not> py_in [60, 115] (str ''<p>(empty)</p>'')"
    by (simp add: str_def)
  ultimately show ?thesis
    by (simp add: build_visual_payload_fields)
qed

text \<open>
  C8: the HTML output is the placeholder, or the paragraphs joined by line feeds, each
  escaped by \<open>html.escape\<close> before its line feeds become \<open><br>\<close> and it is put
  between \<open><p>\<close> and \<open></p>\<close>; \<open>html.escape\<close> replaces each of \<open>&\<close>, \<open><\<close>, \<open>>\<close>
  and the two quote characters by its entity, so its result has none of \<open><\<close>, \<open>>\<close>
  and the quotes. The HTML output never contains \<open><script>\<close>, and it contains
  \<open>&lt;script&gt;\<close> whenever the input contains \<open><script>\<close>.
\<close>

theorem html_output_escaped:
  "html (build_visual_payload (Some x)) =
     (if paragraphs_of (normalize_newlines x) \<noteq> []
      then py_join [10]
             (map (\<lambda>p. str ''<p>'' @ py_replace [10] (str ''<br>'') (html_escape p) @ str ''</p>'')
                (paragraphs_of (normalize_newlines x)))
      else str ''<p>(empty)</p>'') \<and>
   html_escape p = concat (map escape_char p) \<and>
   html_escape (str ''&<>'' @ [34, 39]) = str ''&amp;&lt;&gt;&quot;&#x27;'' \<and>
   set (html_escape p) \<inter> {60, 62, 34, 39} = {} \<and>
   \<not> py_in (str ''<script>'') (html (build_visual_payload (Some x))) \<and>
   (py_in (str ''<script>'') x \<longrightarrow>
      py_in (str ''&lt;script&gt;'') (html (build_visual_payload (Some x))))"
proof -
  have h: "html (build_visual_payload (Some x)) =
     (if paragraphs_of (normalize_newlines x) \<noteq> []
      then py_join [10]
             (map (\<lambda>p. str ''<p>'' @ py_replace [10] (str ''<br>'') (html_escape p) @ str ''</p>'')
                (paragraphs_of (normalize_newlines x)))
      else str ''<p>(empty)</p>'')"
  proof -
    have "html_part =
        (\<lambda>p. str ''<p>'' @ py_replace [10] (str ''<br>'') (html_escape p) @ str ''</p>'')"
      by (rule ext) (simp add: html_part_def Let_def)
    then show ?thesis
      by (simp add: build_visual_payload_fields)
  qed
  have e: "html_escape (str ''&<>'' @ [34, 39]) = str ''&amp;&lt;&gt;&quot;&#x27;''"
    by (simp add: html_escape_concat escape_char_def str_def)
  have "str ''<script>'' = [60, 115] @ str ''cript>''"
    by (simp add: str_def)
  then have n: "\<not> py_in (str ''<script>'') (html (build_visual_payload (Some x)))"
    using html_no_tag [of "Some x"] py_in_prefix [of "[60, 115]" "str ''cript>''"]
    by metis
  have s: "str ''<script>'' \<noteq> []" "\<forall>c\<in>set (str ''<script>''). \<not> is_space c"
      "html_escape (str ''<script>'') = str ''&lt;script&gt;''"
    by (simp_all add: str_def is_space_def html_escape_concat escape_char_def)
  have y: "py_in (str ''&lt;script&gt;'') (html (build_visual_payload (Some x)))"
    if "py_in (str ''<script>'') x"
    using escaped_run_in_html [OF s(1,2) that] s(3) by simp
  from h e n y html_escape_concat [of p] html_escape_no_markup [of p] show ?thesis
    by blast
qed

theorem html_output_escaped_witness:
  "py_in (str ''<script>'') (str ''a<script>b'') \<and>
   py_in (str ''&lt;script&gt;'') (html (build_visual_payload (Some (str ''a<script>b'')))) \<and>
   html (build_visual_payload (Some (str ''a<script>b''))) = str ''<p>a&lt;script&gt;b</p>''"
  using html_output_escaped [of "str ''a<script>b''" "[]"]
  by (simp add: build_visual_payload_def normalize_newlines_def paragraphs_of_def
      html_part_def paragraph_segment_def html_escape_def strip_def is_space_def str_def Let_def)

end
